theory Spec2Isabelle
  imports Main
begin

section \<open>The component MultipleValueTextInput\<close>

text \<open>
  A shallow embedding of \<^verbatim>\<open>src/components/MultipleValueTextInput.js\<close>.
  The component is a React class: its handlers read \<^verbatim>\<open>this.props\<close> and
  \<^verbatim>\<open>this.state\<close>, schedule a state update with \<^verbatim>\<open>setState\<close> and call
  the callbacks the caller passed in. Each handler is embedded as a function from the
  value it is called with and the state it reads to the state after the scheduled update
  together with the list of outward calls it made, in the order it made them.
\<close>

subsection \<open>Props, state, effects\<close>

text \<open>
  The props the handlers and \<^verbatim>\<open>render\<close> read: \<^verbatim>\<open>values\<close> (an array of
  strings) and \<^verbatim>\<open>charCodes\<close> (an array of numbers). \<^verbatim>\<open>shouldAddOnBlur\<close> is
  not a prop the component declares: a caller that passes it finds it collected by the
  rest pattern of \<^verbatim>\<open>render\<close> into \<^verbatim>\<open>forwardedProps\<close> and spread onto
  the input element. It is kept here as an optional field that no handler reads.
\<close>

record props =
  p_values :: "string list"
  p_charCodes :: "int list"
  p_shouldAddOnBlur :: "bool option"

text \<open>\<^verbatim>\<open>defaultProps\<close>, lines 27 to 33 (the cosmetic entries left out).\<close>

definition defaultProps :: props where
  "defaultProps = \<lparr>p_values = [], p_charCodes = [13, 44], p_shouldAddOnBlur = None\<rparr>"

text \<open>
  \<^verbatim>\<open>this.state\<close>: the collection \<^verbatim>\<open>values\<close> and the text of the input
  \<^verbatim>\<open>value\<close>.
\<close>

record state =
  st_values :: "string list"
  st_value :: string

text \<open>
  What a handler does to the outside: it suppresses the default action of the event it
  was given, or it calls one of the two callbacks with a value and an array.
\<close>

datatype effect =
    PreventDefault
  | ItemAdded string "string list"
  | ItemDeleted string "string list"

text \<open>The constructor, lines 39 to 49.\<close>

definition constructor :: "props \<Rightarrow> state" where
  "constructor p = \<lparr>st_values = p_values p, st_value = ''''\<rparr>"

subsection \<open>Handlers\<close>

text \<open>\<^verbatim>\<open>handleValueChange\<close>, lines 58 to 60.\<close>

definition handleValueChange :: "string \<Rightarrow> state \<Rightarrow> state \<times> effect list" where
  "handleValueChange text st = (st\<lparr>st_value := text\<rparr>, [])"

text \<open>
  \<^verbatim>\<open>handleItemAdd\<close>, lines 61 to 72. For a string, \<^verbatim>\<open>!value\<close> holds exactly
  of the empty string; \<^verbatim>\<open>concat\<close> with a string argument appends it as one element.
\<close>

definition handleItemAdd :: "string \<Rightarrow> state \<Rightarrow> state \<times> effect list" where
  "handleItemAdd v st =
     (if v \<in> set (st_values st) \<or> v = [] then (st\<lparr>st_value := ''''\<rparr>, [])
      else (let newValues = st_values st @ [v]
            in (st\<lparr>st_values := newValues, st_value := ''''\<rparr>, [ItemAdded v newValues])))"

text \<open>
  \<^verbatim>\<open>handleItemRemove\<close>, lines 73 to 78: the callback is called with the filtered
  array, whatever the filter removed, and the state update follows.
\<close>

definition handleItemRemove :: "string \<Rightarrow> state \<Rightarrow> state \<times> effect list" where
  "handleItemRemove v st =
     (let currentValues = st_values st;
          newValues = filter (\<lambda>x. x \<noteq> v) currentValues
      in (st\<lparr>st_values := newValues\<rparr>, [ItemDeleted v newValues]))"

text \<open>
  A key-press event, as far as \<^verbatim>\<open>handleKeypress\<close> reads it: \<^verbatim>\<open>e.charCode\<close>
  and \<^verbatim>\<open>e.target.value\<close>.
\<close>

record key_event =
  charCode :: int
  target_value :: string

text \<open>\<^verbatim>\<open>handleKeypress\<close>, lines 50 to 57.\<close>

definition handleKeypress :: "props \<Rightarrow> key_event \<Rightarrow> state \<Rightarrow> state \<times> effect list" where
  "handleKeypress p e st =
     (if charCode e \<in> set (p_charCodes p)
      then (let r = handleItemAdd (target_value e) st in (fst r, PreventDefault # snd r))
      else (st, []))"

subsection \<open>Rendering and events\<close>

text \<open>
  The list of values \<^verbatim>\<open>render\<close> maps to item rows, lines 89 to 91. An array is
  truthy, so the condition is decided by its length.
\<close>

definition render_values :: "props \<Rightarrow> state \<Rightarrow> string list" where
  "render_values p st = (if length (st_values st) \<noteq> 0 then st_values st else p_values p)"

text \<open>
  The events the rendered tree can receive. \<^verbatim>\<open>render\<close> binds
  \<^verbatim>\<open>onKeyPress\<close> and \<^verbatim>\<open>onChange\<close> on the input and hands
  \<^verbatim>\<open>handleItemRemove\<close> to every item row; it binds nothing to the input losing
  focus, so that event reaches no handler of the component.
\<close>

datatype event =
    KeyPress key_event
  | Change string
  | Blur
  | DeleteClick string

fun dispatch :: "props \<Rightarrow> event \<Rightarrow> state \<Rightarrow> state \<times> effect list" where
  "dispatch p (KeyPress e) st = handleKeypress p e st"
| "dispatch p (Change text) st = handleValueChange text st"
| "dispatch p Blur st = (st, [])"
| "dispatch p (DeleteClick v) st = handleItemRemove v st"

text \<open>
  One handler call after another, each on the state the previous one left, the effects
  collected in order.
\<close>

fun seq_all :: "('a \<Rightarrow> state \<Rightarrow> state \<times> effect list) \<Rightarrow> 'a list \<Rightarrow> state \<Rightarrow> state \<times> effect list" where
  "seq_all h [] st = (st, [])"
| "seq_all h (x # xs) st =
     (let r1 = h x st; r2 = seq_all h xs (fst r1) in (fst r2, snd r1 @ snd r2))"

definition run :: "props \<Rightarrow> event list \<Rightarrow> state \<Rightarrow> state \<times> effect list" where
  "run p = seq_all (dispatch p)"

section \<open>Properties\<close>

subsection \<open>Committing a candidate\<close>

lemma handleItemAdd_fresh:
  "v \<noteq> [] \<Longrightarrow> v \<notin> set (st_values st) \<Longrightarrow>
   handleItemAdd v st =
     (st\<lparr>st_values := st_values st @ [v], st_value := ''''\<rparr>, [ItemAdded v (st_values st @ [v])])"
  by (simp add: handleItemAdd_def Let_def)

lemma seq_add_values:
  "distinct (st_values st @ xs) \<Longrightarrow> [] \<notin> set xs \<Longrightarrow>
   st_values (fst (seq_all handleItemAdd xs st)) = st_values st @ xs"
proof (induction xs arbitrary: st)
  case Nil
  then show ?case by simp
next
  case (Cons x xs)
  from Cons.prems have fresh: "x \<noteq> []" "x \<notin> set (st_values st)" by auto
  let ?st1 = "st\<lparr>st_values := st_values st @ [x], st_value := ''''\<rparr>"
  have d: "distinct (st_values ?st1 @ xs)" using Cons.prems(1) by auto
  have e: "[] \<notin> set xs" using Cons.prems(2) by auto
  show ?case
    using Cons.IH [OF d e] by (simp add: handleItemAdd_fresh [OF fresh] Let_def)
qed

lemma seq_add_effects:
  "distinct (st_values st @ xs) \<Longrightarrow> [] \<notin> set xs \<Longrightarrow>
   snd (seq_all handleItemAdd xs st) =
     map (\<lambda>n. ItemAdded (xs ! n) (st_values st @ take (Suc n) xs)) [0..<length xs]"
proof (induction xs arbitrary: st)
  case Nil
  then show ?case by simp
next
  case (Cons x xs)
  from Cons.prems have fresh: "x \<noteq> []" "x \<notin> set (st_values st)" by auto
  let ?st1 = "st\<lparr>st_values := st_values st @ [x], st_value := ''''\<rparr>"
  have d: "distinct (st_values ?st1 @ xs)" using Cons.prems(1) by auto
  have e: "[] \<notin> set xs" using Cons.prems(2) by auto
  show ?case
    using Cons.IH [OF d e]
    by (simp add: handleItemAdd_fresh [OF fresh] Let_def map_upt_Suc del: upt_Suc)
qed

lemma seq_add_draft:
  "xs \<noteq> [] \<Longrightarrow> st_value (fst (seq_all handleItemAdd xs st)) = ''''"
proof (induction xs arbitrary: st)
  case Nil
  then show ?case by simp
next
  case (Cons x xs)
  show ?case
  proof (cases xs)
    case Nil
    then show ?thesis by (simp add: handleItemAdd_def Let_def)
  next
    case (Cons y ys)
    then have "xs \<noteq> []" by simp
    from Cons.IH [OF this] show ?thesis by (simp add: Let_def)
  qed
qed

text \<open>
  C1: a candidate that is not empty and not in the collection is appended at the end of
  the collection, the elements before it unchanged and in their order; the text of the
  input becomes the empty string; \<^verbatim>\<open>onItemAdded\<close> is called exactly once, with the
  candidate and the collection after the append. So a sequence of distinct non-empty
  strings committed one after another from an empty collection leaves the collection
  equal to the sequence, with one \<^verbatim>\<open>onItemAdded\<close> call per element, the call of
  the element at position \<open>n\<close> carrying the first \<open>n + 1\<close> elements.
\<close>

theorem C1_commit_appends:
  "(v \<noteq> [] \<and> v \<notin> set (st_values st) \<longrightarrow>
      handleItemAdd v st =
        (\<lparr>st_values = st_values st @ [v], st_value = ''''\<rparr>,
         [ItemAdded v (st_values st @ [v])]))
   \<and> (distinct xs \<and> [] \<notin> set xs \<and> st_values st0 = [] \<longrightarrow>
      st_values (fst (seq_all handleItemAdd xs st0)) = xs
      \<and> (xs \<noteq> [] \<longrightarrow> st_value (fst (seq_all handleItemAdd xs st0)) = '''')
      \<and> length (snd (seq_all handleItemAdd xs st0)) = length xs
      \<and> (\<forall>n<length xs. snd (seq_all handleItemAdd xs st0) ! n
                          = ItemAdded (xs ! n) (take (Suc n) xs)))"
proof (intro conjI impI)
  assume "v \<noteq> [] \<and> v \<notin> set (st_values st)"
  then show "handleItemAdd v st =
        (\<lparr>st_values = st_values st @ [v], st_value = ''''\<rparr>,
         [ItemAdded v (st_values st @ [v])])"
    by (simp add: handleItemAdd_fresh)
next
  assume a: "distinct xs \<and> [] \<notin> set xs \<and> st_values st0 = []"
  then have d: "distinct (st_values st0 @ xs)" and e: "[] \<notin> set xs" by simp_all
  show "st_values (fst (seq_all handleItemAdd xs st0)) = xs"
    using seq_add_values [OF d e] a by simp
  show "length (snd (seq_all handleItemAdd xs st0)) = length xs"
    using seq_add_effects [OF d e] by simp
  show "\<forall>n<length xs. snd (seq_all handleItemAdd xs st0) ! n
                          = ItemAdded (xs ! n) (take (Suc n) xs)"
    using seq_add_effects [OF d e] a by simp
next
  assume "xs \<noteq> []"
  then show "st_value (fst (seq_all handleItemAdd xs st0)) = ''''"
    by (rule seq_add_draft)
qed

theorem C1_commit_appends_witness:
  "handleItemAdd ''abc2'' \<lparr>st_values = [''abc''], st_value = ''abc2''\<rparr> =
     (\<lparr>st_values = [''abc'', ''abc2''], st_value = ''''\<rparr>, [ItemAdded ''abc2'' [''abc'', ''abc2'']])
   \<and> seq_all handleItemAdd [''abc'', ''abc2''] \<lparr>st_values = [], st_value = ''x''\<rparr> =
     (\<lparr>st_values = [''abc'', ''abc2''], st_value = ''''\<rparr>,
      [ItemAdded ''abc'' [''abc''], ItemAdded ''abc2'' [''abc'', ''abc2'']])"
  using C1_commit_appends [of "''abc2''" "\<lparr>st_values = [''abc''], st_value = ''abc2''\<rparr>"
      "[''abc'', ''abc2'']" "\<lparr>st_values = [], st_value = ''x''\<rparr>"]
  by (simp add: handleItemAdd_def Let_def)

text \<open>
  C2: a candidate that is the empty string, or that is already in the collection, leaves
  the collection as it is, sets the text of the input to the empty string and calls no
  callback. The function is total: it returns on every input.
\<close>

theorem C2_commit_rejected:
  "v = [] \<or> v \<in> set (st_values st) \<Longrightarrow>
   handleItemAdd v st = (\<lparr>st_values = st_values st, st_value = ''''\<rparr>, [])"
  by (auto simp add: handleItemAdd_def)

theorem C2_commit_rejected_witness:
  "handleItemAdd '''' \<lparr>st_values = [''abc''], st_value = ''''\<rparr>
     = (\<lparr>st_values = [''abc''], st_value = ''''\<rparr>, [])
   \<and> handleItemAdd ''abc'' \<lparr>st_values = [''abc''], st_value = ''abc''\<rparr>
     = (\<lparr>st_values = [''abc''], st_value = ''''\<rparr>, [])"
  using C2_commit_rejected [of "''''" "\<lparr>st_values = [''abc''], st_value = ''''\<rparr>"]
    C2_commit_rejected [of "''abc''" "\<lparr>st_values = [''abc''], st_value = ''abc''\<rparr>"]
  by simp

text \<open>
  C7: after every call of \<^verbatim>\<open>handleItemAdd\<close>, whatever the candidate and whatever
  the state before, accepted or rejected, the text of the input is the empty string.
\<close>

theorem C7_draft_cleared: "st_value (fst (handleItemAdd v st)) = ''''"
  by (simp add: handleItemAdd_def Let_def)

text \<open>
  C6: a non-empty candidate that is not in the collection, submitted twice in a row, is
  added once: the two calls together leave the collection with the candidate appended
  once and make one \<^verbatim>\<open>onItemAdded\<close> call, the first call making it and the
  second call changing nothing and calling nothing.
\<close>

theorem C6_commit_twice:
  "v \<noteq> [] \<Longrightarrow> v \<notin> set (st_values st) \<Longrightarrow>
   seq_all handleItemAdd [v, v] st
     = (\<lparr>st_values = st_values st @ [v], st_value = ''''\<rparr>, [ItemAdded v (st_values st @ [v])])
   \<and> snd (handleItemAdd v st) = [ItemAdded v (st_values st @ [v])]
   \<and> handleItemAdd v (fst (handleItemAdd v st)) = (fst (handleItemAdd v st), [])"
  by (simp add: handleItemAdd_def Let_def)

theorem C6_commit_twice_witness:
  "''abc'' \<noteq> [] \<and> ''abc'' \<notin> set []
   \<and> seq_all handleItemAdd [''abc'', ''abc''] \<lparr>st_values = [], st_value = ''abc''\<rparr>
     = (\<lparr>st_values = [''abc''], st_value = ''''\<rparr>, [ItemAdded ''abc'' [''abc'']])"
  using C6_commit_twice [of "''abc''" "\<lparr>st_values = [], st_value = ''abc''\<rparr>"]
  by simp

subsection \<open>No duplicates\<close>

lemma distinct_handleItemAdd:
  "distinct (st_values st) \<Longrightarrow> distinct (st_values (fst (handleItemAdd v st)))"
  by (simp add: handleItemAdd_def Let_def)

lemma distinct_handleItemRemove:
  "distinct (st_values st) \<Longrightarrow> distinct (st_values (fst (handleItemRemove v st)))"
  by (simp add: handleItemRemove_def Let_def)

lemma distinct_dispatch:
  "distinct (st_values st) \<Longrightarrow> distinct (st_values (fst (dispatch p ev st)))"
  by (cases ev)
    (simp_all add: handleKeypress_def handleValueChange_def Let_def
      distinct_handleItemAdd distinct_handleItemRemove)

lemma distinct_seq_all:
  assumes step: "\<And>x st. distinct (st_values st) \<Longrightarrow> distinct (st_values (fst (h x st)))"
  shows "distinct (st_values st) \<Longrightarrow> distinct (st_values (fst (seq_all h xs st)))"
proof (induction xs arbitrary: st)
  case Nil
  then show ?case by simp
next
  case (Cons x xs)
  from step [OF Cons.prems] have "distinct (st_values (fst (h x st)))" .
  from Cons.IH [OF this] show ?case by (simp add: Let_def)
qed

text \<open>
  C3: a collection without duplicates stays without duplicates under
  \<^verbatim>\<open>handleItemAdd\<close>, under \<^verbatim>\<open>handleItemRemove\<close>, and so under every
  sequence of events the component handles.
\<close>

theorem C3_no_duplicates_preserved:
  "distinct (st_values st) \<Longrightarrow>
     distinct (st_values (fst (handleItemAdd v st)))
   \<and> distinct (st_values (fst (handleItemRemove w st)))
   \<and> distinct (st_values (fst (run p evs st)))"
  unfolding run_def
  by (intro conjI distinct_handleItemAdd distinct_handleItemRemove
      distinct_seq_all [where h = "dispatch p"] distinct_dispatch)

theorem C3_no_duplicates_preserved_witness:
  "distinct [''1'', ''2'']
   \<and> distinct (st_values (fst (handleItemAdd ''3'' \<lparr>st_values = [''1'', ''2''], st_value = ''3''\<rparr>)))
   \<and> distinct (st_values (fst (handleItemRemove ''1'' \<lparr>st_values = [''1'', ''2''], st_value = ''3''\<rparr>)))
   \<and> distinct (st_values (fst (run defaultProps
         [KeyPress \<lparr>charCode = 13, target_value = ''3''\<rparr>, DeleteClick ''2'']
         \<lparr>st_values = [''1'', ''2''], st_value = ''3''\<rparr>)))"
  using C3_no_duplicates_preserved [of "\<lparr>st_values = [''1'', ''2''], st_value = ''3''\<rparr>"
      "''3''" "''1''" defaultProps
      "[KeyPress \<lparr>charCode = 13, target_value = ''3''\<rparr>, DeleteClick ''2'']"]
  by simp

subsection \<open>Removing a value\<close>

lemma filter_neq_absent: "v \<notin> set xs \<Longrightarrow> filter (\<lambda>x. x \<noteq> v) xs = xs"
  by (induction xs) auto

text \<open>
  C4: removing a value that is in a collection without duplicates takes out exactly that
  one element: the collection splits around the value into the elements before it and the
  elements after it, and what is left is the two parts joined, one element shorter and
  without the value. \<^verbatim>\<open>onItemDeleted\<close> is called exactly once, with the value and the
  collection after the removal.
\<close>

theorem C4_remove_present:
  "v \<in> set (st_values st) \<Longrightarrow> distinct (st_values st) \<Longrightarrow>
   \<exists>ys zs. st_values st = ys @ v # zs
     \<and> handleItemRemove v st = (st\<lparr>st_values := ys @ zs\<rparr>, [ItemDeleted v (ys @ zs)])
     \<and> Suc (length (ys @ zs)) = length (st_values st)
     \<and> v \<notin> set (ys @ zs)"
proof -
  assume mem: "v \<in> set (st_values st)" and dist: "distinct (st_values st)"
  from mem obtain ys zs where split: "st_values st = ys @ v # zs"
    by (auto dest: split_list)
  from dist split have absent: "v \<notin> set ys" "v \<notin> set zs" by auto
  have "filter (\<lambda>x. x \<noteq> v) (st_values st) = ys @ zs"
    by (simp add: split filter_neq_absent [OF absent(1)] filter_neq_absent [OF absent(2)])
  then have "handleItemRemove v st = (st\<lparr>st_values := ys @ zs\<rparr>, [ItemDeleted v (ys @ zs)])"
    by (simp add: handleItemRemove_def Let_def)
  with split absent show ?thesis by auto
qed

theorem C4_remove_present_witness:
  "''1'' \<in> set [''1'', ''2''] \<and> distinct [''1'', ''2'']
   \<and> (\<exists>ys zs. [''1'', ''2''] = ys @ ''1'' # zs
     \<and> handleItemRemove ''1'' \<lparr>st_values = [''1'', ''2''], st_value = ''''\<rparr>
         = (\<lparr>st_values = ys @ zs, st_value = ''''\<rparr>, [ItemDeleted ''1'' (ys @ zs)])
     \<and> Suc (length (ys @ zs)) = 2
     \<and> ''1'' \<notin> set (ys @ zs))"
  using C4_remove_present [of "''1''" "\<lparr>st_values = [''1'', ''2''], st_value = ''''\<rparr>"]
  by simp

text \<open>
  C5, as the specification states it: removing a value that is not in the collection calls
  no callback. \<^verbatim>\<open>handleItemRemove\<close> has no test of membership, so it calls
  \<^verbatim>\<open>onItemDeleted\<close> all the same. The row of a value that is not in the collection
  can be on screen: once the collection is empty, \<^verbatim>\<open>render\<close> shows the rows of the
  \<^verbatim>\<open>values\<close> prop.
\<close>

theorem C5_remove_absent_counterexample:
  "''1'' \<notin> set (st_values \<lparr>st_values = [''2''], st_value = ''''\<rparr>)
   \<and> snd (handleItemRemove ''1'' \<lparr>st_values = [''2''], st_value = ''''\<rparr>)
       = [ItemDeleted ''1'' [''2'']]
   \<and> snd (handleItemRemove ''1'' \<lparr>st_values = [''2''], st_value = ''''\<rparr>) \<noteq> []"
  by (simp add: handleItemRemove_def Let_def)

text \<open>
  C5, amended: removing a value that is not in the collection leaves the state as it is,
  and \<^verbatim>\<open>onItemDeleted\<close> is called once, with the value and the unchanged collection.
\<close>

theorem C5_remove_absent:
  "v \<notin> set (st_values st) \<Longrightarrow>
   handleItemRemove v st = (st, [ItemDeleted v (st_values st)])"
  by (simp add: handleItemRemove_def Let_def filter_neq_absent)

theorem C5_remove_absent_witness:
  "''1'' \<notin> set [''2'']
   \<and> handleItemRemove ''1'' \<lparr>st_values = [''2''], st_value = ''''\<rparr>
       = (\<lparr>st_values = [''2''], st_value = ''''\<rparr>, [ItemDeleted ''1'' [''2'']])"
  using C5_remove_absent [of "''1''" "\<lparr>st_values = [''2''], st_value = ''''\<rparr>"]
  by simp

subsection \<open>Key presses and loss of focus\<close>

text \<open>
  C8: a key press whose character code is in \<^verbatim>\<open>charCodes\<close> has its default action
  suppressed and then the text of the event's target submitted to
  \<^verbatim>\<open>handleItemAdd\<close>; a key press whose code is not in the list changes no state and
  has no effect. The default list is \<open>[13, 44]\<close>.
\<close>

theorem C8_keypress_trigger:
  "(charCode e \<in> set (p_charCodes p) \<longrightarrow>
      handleKeypress p e st
        = (fst (handleItemAdd (target_value e) st),
           PreventDefault # snd (handleItemAdd (target_value e) st)))
   \<and> (charCode e \<notin> set (p_charCodes p) \<longrightarrow> handleKeypress p e st = (st, []))
   \<and> p_charCodes defaultProps = [13, 44]"
  by (simp add: handleKeypress_def defaultProps_def Let_def)

theorem C8_keypress_trigger_witness:
  "handleKeypress defaultProps \<lparr>charCode = 44, target_value = ''abc''\<rparr>
       \<lparr>st_values = [], st_value = ''abc''\<rparr>
     = (\<lparr>st_values = [''abc''], st_value = ''''\<rparr>, [PreventDefault, ItemAdded ''abc'' [''abc'']])
   \<and> handleKeypress (defaultProps\<lparr>p_charCodes := [32]\<rparr>) \<lparr>charCode = 13, target_value = ''abc''\<rparr>
       \<lparr>st_values = [], st_value = ''abc''\<rparr>
     = (\<lparr>st_values = [], st_value = ''abc''\<rparr>, [])"
  using C8_keypress_trigger [of "\<lparr>charCode = 44, target_value = ''abc''\<rparr>" defaultProps
      "\<lparr>st_values = [], st_value = ''abc''\<rparr>"]
    C8_keypress_trigger [of "\<lparr>charCode = 13, target_value = ''abc''\<rparr>"
      "defaultProps\<lparr>p_charCodes := [32]\<rparr>" "\<lparr>st_values = [], st_value = ''abc''\<rparr>"]
  by (simp add: handleItemAdd_def defaultProps_def Let_def)

text \<open>
  C9: with \<^verbatim>\<open>shouldAddOnBlur\<close> passed as true and an empty seed, the text
  \<open>test\<close> typed and the input then losing focus, the collection is still empty, the text
  is still in the input and no callback was called.
\<close>

theorem C9_blur_commits_nothing:
  "run (defaultProps\<lparr>p_shouldAddOnBlur := Some True\<rparr>) [Change ''test'', Blur]
       (constructor (defaultProps\<lparr>p_shouldAddOnBlur := Some True\<rparr>))
     = (\<lparr>st_values = [], st_value = ''test''\<rparr>, [])"
  by (simp add: run_def constructor_def defaultProps_def handleValueChange_def)

subsection \<open>The rows on screen\<close>

lemma values_after_deletes:
  "st_values (fst (run p (map DeleteClick rs) st)) = filter (\<lambda>x. x \<notin> set rs) (st_values st)"
proof (induction rs arbitrary: st)
  case Nil
  then show ?case by (simp add: run_def)
next
  case (Cons r rs)
  have "st_values (fst (run p (map DeleteClick (r # rs)) st))
        = st_values (fst (run p (map DeleteClick rs) (fst (handleItemRemove r st))))"
    by (simp add: run_def Let_def)
  also have "\<dots> = filter (\<lambda>x. x \<notin> set rs) (st_values (fst (handleItemRemove r st)))"
    by (rule Cons.IH)
  also have "\<dots> = filter (\<lambda>x. x \<notin> set (r # rs)) (st_values st)"
    by (simp add: handleItemRemove_def Let_def conj_commute)
  finally show ?case .
qed

text \<open>
  C10: the rows \<^verbatim>\<open>render\<close> shows are those of the collection in the state unless
  that collection is empty, and then those of the \<^verbatim>\<open>values\<close> prop. So after delete
  clicks that cover every value of the collection, the collection is empty and the rows
  on screen are again those of the prop.
\<close>

theorem C10_render_fallback:
  "render_values p st = (if st_values st = [] then p_values p else st_values st)
   \<and> (set (st_values st) \<subseteq> set rs \<longrightarrow>
        st_values (fst (run p (map DeleteClick rs) st)) = []
        \<and> render_values p (fst (run p (map DeleteClick rs) st)) = p_values p)"
proof (intro conjI impI)
  show "render_values p st = (if st_values st = [] then p_values p else st_values st)"
    by (simp add: render_values_def)
next
  assume cover: "set (st_values st) \<subseteq> set rs"
  then have "filter (\<lambda>x. x \<notin> set rs) (st_values st) = []"
    by (auto simp add: filter_empty_conv)
  then show gone: "st_values (fst (run p (map DeleteClick rs) st)) = []"
    by (simp add: values_after_deletes)
  then show "render_values p (fst (run p (map DeleteClick rs) st)) = p_values p"
    by (simp add: render_values_def)
qed

theorem C10_render_fallback_witness:
  "set [''1'', ''2''] \<subseteq> set [''2'', ''1'']
   \<and> st_values (fst (run (defaultProps\<lparr>p_values := [''1'', ''2'']\<rparr>) [DeleteClick ''2'', DeleteClick ''1'']
        (constructor (defaultProps\<lparr>p_values := [''1'', ''2'']\<rparr>)))) = []
   \<and> render_values (defaultProps\<lparr>p_values := [''1'', ''2'']\<rparr>)
        (fst (run (defaultProps\<lparr>p_values := [''1'', ''2'']\<rparr>) [DeleteClick ''2'', DeleteClick ''1'']
        (constructor (defaultProps\<lparr>p_values := [''1'', ''2'']\<rparr>)))) = [''1'', ''2'']"
  using C10_render_fallback [of "defaultProps\<lparr>p_values := [''1'', ''2'']\<rparr>"
      "constructor (defaultProps\<lparr>p_values := [''1'', ''2'']\<rparr>)" "[''2'', ''1'']"]
  by (simp add: constructor_def defaultProps_def)

end
